theory Spec2Isabelle
  imports Complex_Main "HOL-Library.Char_ord" "HOL-Library.List_Lexorder" "HOL-Library.Multiset"
    "HOL-Library.Product_Lexorder"
begin

section \<open>The tire market dashboard (app.py)\<close>

text \<open>
  The script loads one table, filters it by two selections and derives a fixed set of
  frames, a metric and a text list from the filtered table. Each statement of the script
  becomes one definition below, named after the variable the script assigns.

  A cell of the table is an \<open>option\<close>: \<open>None\<close> is pandas' missing value (NaN), which
  \<open>read_csv\<close> produces for an empty field of any column. Text cells hold a \<open>string\<close>.
  The type of the numbers in the numeric cells is a parameter of the row type, because the
  script is read twice.

  In the first reading a number is a rational and sums, means and the multiplication by
  100 are exact. It serves the statements that no arithmetic can disturb: which rows are
  filtered, what an empty table gives, the scenario with small whole numbers, counting,
  and where a selection comes from.

  In the second reading (the definitions whose names end in \<open>_with\<close>) a number is whatever
  a pandas column holds, both zeros and both infinities of a float included, and the sums,
  means and products are those of pandas and numpy, taken as a parameter: an int64 sum
  wraps around, a float sum rounds, and neither is code of the script. The statements about
  the ranking, the top competitor table and the market share metric are made in this
  reading, for every such arithmetic.
\<close>

subsection \<open>One row of the dataset\<close>

record 'n sales_record =
  COUNTRY_OR_TERRITORY :: "string option"
  TIRE_SIZE :: "string option"
  TOTAL_INDUSTRY_SALES :: "'n option"
  GOODYEAR_SALES :: "'n option"
  SOM_OF_BRAND :: "'n option"
  COMPETITOR_BRAND :: "string option"
  COMPETITOR_BRAND_SALES :: "'n option"
  COMPETITOR_SOM :: "'n option"
  BRAND_NAME :: "string option"
  COMPETITOR_PATTERN :: "string option"
  COMPETITOR_PATTERN_SALES :: "'n option"
  TOP_5_FITMENTS :: "string option"

type_synonym 'n table = "'n sales_record list"

text \<open>A table of the first reading, with rational numbers.\<close>

type_synonym dataframe = "rat table"

subsection \<open>The pandas operations the script calls\<close>

text \<open>
  \<open>series == value\<close>, elementwise: a missing cell equals nothing, not even another missing
  value, and comparing with Python's \<open>None\<close> is false in every row.
\<close>

definition cell_eq :: "'a option \<Rightarrow> 'a option \<Rightarrow> bool" where
  "cell_eq a b = (case a of None \<Rightarrow> False | Some x \<Rightarrow> (case b of None \<Rightarrow> False | Some y \<Rightarrow> x = y))"

text \<open>
  \<open>drop_duplicates()\<close> and \<open>unique()\<close> scan the rows once and keep a row when no equal row
  was seen before it; missing values count as equal to each other here.
\<close>

fun uniq_scan :: "'a list \<Rightarrow> 'a list \<Rightarrow> 'a list" where
  "uniq_scan seen [] = []"
| "uniq_scan seen (x # xs) =
     (if x \<in> set seen then uniq_scan seen xs else x # uniq_scan (x # seen) xs)"

definition drop_duplicates :: "'a list \<Rightarrow> 'a list" where
  "drop_duplicates xs = uniq_scan [] xs"

definition unique :: "'a list \<Rightarrow> 'a list" where
  "unique xs = drop_duplicates xs"

fun dropna :: "'a option list \<Rightarrow> 'a list" where
  "dropna [] = []"
| "dropna (None # xs) = dropna xs"
| "dropna (Some x # xs) = x # dropna xs"

definition head :: "nat \<Rightarrow> 'a list \<Rightarrow> 'a list" where
  "head n xs = take n xs"

text \<open>Reductions skip missing values: the sum of nothing is 0, the mean and the maximum
  of nothing are missing.\<close>

definition nansum :: "rat option list \<Rightarrow> rat" where
  "nansum xs = sum_list (dropna xs)"

definition nanmean :: "rat option list \<Rightarrow> rat option" where
  "nanmean xs =
     (let vs = dropna xs
      in if vs = [] then None else Some (sum_list vs / of_nat (length vs)))"

definition nanmax :: "rat option list \<Rightarrow> rat option" where
  "nanmax xs = (case dropna xs of [] \<Rightarrow> None | v # vs \<Rightarrow> Some (fold max vs v))"

definition times100 :: "rat option \<Rightarrow> rat option" where
  "times100 c = map_option (\<lambda>x. x * 100) c"

text \<open>
  \<open>groupby(key, as_index=False)\<close> with its defaults: rows whose key is missing are
  dropped, and the groups come out in ascending order of the key.
\<close>

definition group_keys :: "('k::linorder option \<times> 'v) list \<Rightarrow> 'k list" where
  "group_keys ps = sort (remdups (dropna (map fst ps)))"

definition group_values :: "'k \<Rightarrow> ('k option \<times> 'v) list \<Rightarrow> 'v list" where
  "group_values k ps = map snd (filter (\<lambda>p. fst p = Some k) ps)"

definition groupby_sum :: "('k::linorder option \<times> rat option) list \<Rightarrow> ('k \<times> rat) list" where
  "groupby_sum ps = map (\<lambda>k. (k, nansum (group_values k ps))) (group_keys ps)"

definition groupby_agg_max_mean ::
    "('k::linorder option \<times> rat option \<times> rat option) list \<Rightarrow> ('k \<times> rat option \<times> rat option) list" where
  "groupby_agg_max_mean ps =
     map (\<lambda>k. (k, nanmax (map fst (group_values k ps)), nanmean (map snd (group_values k ps))))
       (group_keys ps)"

text \<open>
  \<open>sort_values(by=col, ascending=False)\<close>: the rows with a number in the column, in
  descending order, then the rows where it is missing. Rows with equal numbers keep
  their order here (a stable sort); pandas' default sorting algorithm does not promise
  an order among equal keys, and no statement below depends on one.
\<close>

definition sort_values_desc :: "('a \<Rightarrow> rat option) \<Rightarrow> 'a list \<Rightarrow> 'a list" where
  "sort_values_desc key xs =
     sort_key (\<lambda>x. - the (key x)) (filter (\<lambda>x. key x \<noteq> None) xs)
       @ filter (\<lambda>x. key x = None) xs"

text \<open>
  \<open>melt\<close> of a two-column frame: one (column name, value) row per cell, all cells of the
  first column before those of the second.
\<close>

definition melt :: "string \<Rightarrow> string \<Rightarrow> ('v \<times> 'v) list \<Rightarrow> (string \<times> 'v) list" where
  "melt c1 c2 ps = map (\<lambda>p. (c1, fst p)) ps @ map (\<lambda>p. (c2, snd p)) ps"

text \<open>
  \<open>value_counts()\<close>: missing values are left out, each distinct value gets the number of
  its occurrences, and the values are listed by descending count.
\<close>

definition value_counts :: "'a option list \<Rightarrow> ('a \<times> nat) list" where
  "value_counts xs =
     (let vs = dropna xs
      in sort_values_desc (\<lambda>p. Some (of_nat (snd p)))
           (map (\<lambda>v. (v, count_list vs v)) (unique vs)))"

subsection \<open>Python's fixed-point formatting\<close>

text \<open>
  \<open>f"{x:.2f}"\<close> prints \<open>nan\<close> for a missing value. A number is rounded to the given
  number of decimals, a tie going to the even neighbour, and printed with its sign, its
  integer digits, and exactly that many decimals.
\<close>

function str_nat :: "nat \<Rightarrow> string" where
  "str_nat n =
     (if n < 10 then [''0123456789'' ! n]
      else str_nat (n div 10) @ [''0123456789'' ! (n mod 10)])"
  by pat_completeness auto
termination
  by (relation "measure id") auto

declare str_nat.simps [simp del]

fun decimals :: "nat \<Rightarrow> nat \<Rightarrow> string" where
  "decimals 0 n = []"
| "decimals (Suc d) n = decimals d (n div 10) @ [''0123456789'' ! (n mod 10)]"

definition round_half_even :: "rat \<Rightarrow> nat" where
  "round_half_even q =
     (let f = \<lfloor>q\<rfloor>; r = q - of_int f
      in nat (if r < 1 / 2 then f else if 1 / 2 < r then f + 1
              else if even f then f else f + 1))"

definition format_fixed :: "nat \<Rightarrow> rat option \<Rightarrow> string" where
  "format_fixed d c =
     (case c of
        None \<Rightarrow> ''nan''
      | Some x \<Rightarrow>
          (let n = round_half_even (\<bar>x\<bar> * 10 ^ d)
           in (if x < 0 then ''-'' else [])
                @ str_nat (n div 10 ^ d)
                @ (if d = 0 then [] else ''.'' @ decimals d (n mod 10 ^ d))))"

subsection \<open>Streamlit's selectbox\<close>

text \<open>
  A selectbox returns one of its options, whichever the user picked (the first one until
  they pick), and Python's \<open>None\<close> when it has no options. \<open>selectbox_returns opts v\<close>
  says that \<open>v\<close> is a value the call can return.
\<close>

definition selectbox_returns :: "'a option list \<Rightarrow> 'a option \<Rightarrow> bool" where
  "selectbox_returns opts v = (if opts = [] then v = None else v \<in> set opts)"

subsection \<open>The script\<close>

definition country_options :: "'n table \<Rightarrow> string option list" where
  "country_options df = unique (map COUNTRY_OR_TERRITORY df)"

definition tire_size_options :: "'n table \<Rightarrow> string option list" where
  "tire_size_options df = unique (map TIRE_SIZE df)"

definition df_filtered :: "'n table \<Rightarrow> string option \<Rightarrow> string option \<Rightarrow> 'n table" where
  "df_filtered df selected_countries selected_tire_size =
     filter (\<lambda>r. cell_eq (COUNTRY_OR_TERRITORY r) selected_countries
                \<and> cell_eq (TIRE_SIZE r) selected_tire_size) df"

definition sales_data :: "dataframe \<Rightarrow> (string \<times> rat option) list" where
  "sales_data t =
     melt ''TOTAL_INDUSTRY_SALES'' ''GOODYEAR_SALES''
       (drop_duplicates (map (\<lambda>r. (TOTAL_INDUSTRY_SALES r, GOODYEAR_SALES r)) t))"

definition market_share :: "dataframe \<Rightarrow> rat option" where
  "market_share t = nanmean (drop_duplicates (map SOM_OF_BRAND t))"

definition market_share_metric :: "dataframe \<Rightarrow> string" where
  "market_share_metric t = format_fixed 2 (times100 (market_share t)) @ ''%''"

definition df_competitor_sales :: "dataframe \<Rightarrow> (string \<times> rat) list" where
  "df_competitor_sales t =
     head 35
       (sort_values_desc (\<lambda>p. Some (snd p))
          (groupby_sum
             (drop_duplicates (map (\<lambda>r. (COMPETITOR_BRAND r, COMPETITOR_BRAND_SALES r)) t))))"

definition df_valid_brands :: "dataframe \<Rightarrow> dataframe" where
  "df_valid_brands t = filter (\<lambda>r. BRAND_NAME r \<noteq> None) t"

definition brand_counts :: "dataframe \<Rightarrow> (string \<times> nat) list" where
  "brand_counts t = value_counts (map BRAND_NAME (df_valid_brands t))"

definition total_brands :: "dataframe \<Rightarrow> nat" where
  "total_brands t = sum_list (map snd (brand_counts t))"

text \<open>The column PERCENTAGE that the script adds to \<open>brand_counts\<close>, as a list.\<close>

definition brand_percentage :: "dataframe \<Rightarrow> rat list" where
  "brand_percentage t =
     map (\<lambda>p. of_nat (snd p) / of_nat (total_brands t) * 100) (brand_counts t)"

text \<open>A row of the top competitor table: brand, largest sales, formatted share.\<close>

type_synonym top_row = "string \<times> rat option \<times> string"

definition df_top_competitors :: "dataframe \<Rightarrow> top_row list" where
  "df_top_competitors t =
     head 10
       (sort_values_desc (\<lambda>row. fst (snd row))
          (map (\<lambda>(b, s, m). (b, s, format_fixed 4 (times100 m) @ ''%''))
             (groupby_agg_max_mean
                (drop_duplicates
                   (map (\<lambda>r. (COMPETITOR_BRAND r, COMPETITOR_BRAND_SALES r, COMPETITOR_SOM r)) t)))))"

text \<open>
  \<open>iloc[0]\<close> raises IndexError on an empty frame. The two callouts are the brand and the
  formatted share of the first row; \<open>Inr None\<close> is a run that renders neither.
\<close>

datatype py_error = IndexError

definition iloc0 :: "'a list \<Rightarrow> py_error + 'a" where
  "iloc0 xs = (case xs of [] \<Rightarrow> Inl IndexError | x # _ \<Rightarrow> Inr x)"

definition top_competitor :: "top_row list \<Rightarrow> py_error + (string \<times> string) option" where
  "top_competitor tbl =
     (if tbl \<noteq> [] then
        (case iloc0 tbl of
           Inl e \<Rightarrow> Inl e
         | Inr row \<Rightarrow> Inr (Some (fst row, snd (snd row))))
      else Inr None)"

definition competitor_options :: "top_row list \<Rightarrow> string option list" where
  "competitor_options tbl = unique (map (\<lambda>row. Some (fst row)) tbl)"

definition df_competitor_pattern :: "dataframe \<Rightarrow> string option \<Rightarrow> dataframe" where
  "df_competitor_pattern t selected_competitor =
     filter (\<lambda>r. cell_eq (COMPETITOR_BRAND r) selected_competitor) t"

definition df_pattern_sales :: "dataframe \<Rightarrow> string option \<Rightarrow> (string option \<times> rat option) list" where
  "df_pattern_sales t selected_competitor =
     drop_duplicates
       (map (\<lambda>r. (COMPETITOR_PATTERN r, COMPETITOR_PATTERN_SALES r))
          (df_competitor_pattern t selected_competitor))"

definition fitments :: "dataframe \<Rightarrow> string list" where
  "fitments t = unique (dropna (map TOP_5_FITMENTS t))"

text \<open>
  The loop over \<open>fitments[:5]\<close> writes one line per fitment: a check mark (U+2705, three
  bytes in UTF-8), a space, and the fitment as it stands in the table.
\<close>

definition check_mark :: string where
  "check_mark = [CHR 0xE2, CHR 0x9C, CHR 0x85]"

definition fitments_written :: "dataframe \<Rightarrow> string list" where
  "fitments_written t = map (\<lambda>fitment. check_mark @ '' '' @ fitment) (take 5 (fitments t))"

subsection \<open>Notions used to state the properties\<close>

text \<open>
  The order of a column sorted in descending order with missing values last: a number is
  followed by numbers that are not larger or by missing values, a missing value only by
  missing values.
\<close>

definition desc_nan_last :: "rat option \<Rightarrow> rat option \<Rightarrow> bool" where
  "desc_nan_last a b =
     (case b of None \<Rightarrow> True | Some y \<Rightarrow> (case a of None \<Rightarrow> False | Some x \<Rightarrow> y \<le> x))"

text \<open>
  The competitor sales ranking in the specification's words, for one brand: the rows of
  the brand, deduplicated on (brand, sales), with their sales summed. Within one brand the
  pairs differ exactly when the sales cells differ.
\<close>

definition spec_brand_sales_sum :: "dataframe \<Rightarrow> string \<Rightarrow> rat" where
  "spec_brand_sales_sum t b =
     sum_list (dropna (remdups
       (map COMPETITOR_BRAND_SALES (filter (\<lambda>r. COMPETITOR_BRAND r = Some b) t))))"

text \<open>
  The top competitor table in the specification's words, for one brand: the largest
  sales of the brand's rows, and the mean share over the brand's rows deduplicated on
  (brand, sales, share).
\<close>

definition spec_brand_sales_max :: "dataframe \<Rightarrow> string \<Rightarrow> rat option" where
  "spec_brand_sales_max t b =
     (let vs = dropna (map COMPETITOR_BRAND_SALES (filter (\<lambda>r. COMPETITOR_BRAND r = Some b) t))
      in if vs = [] then None else Some (Max (set vs)))"

definition spec_brand_som_mean :: "dataframe \<Rightarrow> string \<Rightarrow> rat option" where
  "spec_brand_som_mean t b =
     (let ms = dropna (map snd (remdups
                 (map (\<lambda>r. (COMPETITOR_BRAND_SALES r, COMPETITOR_SOM r))
                    (filter (\<lambda>r. COMPETITOR_BRAND r = Some b) t))))
      in if ms = [] then None else Some (sum_list ms / of_nat (length ms)))"

definition is_digit :: "char \<Rightarrow> bool" where
  "is_digit c = (c \<in> set ''0123456789'')"

subsection \<open>A small dataset\<close>

text \<open>
  Three rows for one country and tire size and one row for another, with a missing brand
  name and a missing fitments cell; the statements below are run on it.
\<close>

definition row_us_a :: "rat sales_record" where
  "row_us_a = \<lparr>COUNTRY_OR_TERRITORY = Some ''US'', TIRE_SIZE = Some ''P225/65R17'',
     TOTAL_INDUSTRY_SALES = Some 1000, GOODYEAR_SALES = Some 200, SOM_OF_BRAND = Some (1 / 5),
     COMPETITOR_BRAND = Some ''A'', COMPETITOR_BRAND_SALES = Some 300, COMPETITOR_SOM = Some (3 / 10),
     BRAND_NAME = Some ''Goodyear'', COMPETITOR_PATTERN = Some ''A1'',
     COMPETITOR_PATTERN_SALES = Some 180, TOP_5_FITMENTS = Some ''Toyota RAV4''\<rparr>"

definition row_us_a2 :: "rat sales_record" where
  "row_us_a2 = row_us_a\<lparr>COMPETITOR_PATTERN := Some ''A2'', COMPETITOR_PATTERN_SALES := Some 120,
     BRAND_NAME := None, TOP_5_FITMENTS := None\<rparr>"

definition row_us_b :: "rat sales_record" where
  "row_us_b = row_us_a\<lparr>COMPETITOR_BRAND := Some ''B'', COMPETITOR_BRAND_SALES := Some 150,
     COMPETITOR_SOM := Some (3 / 20), BRAND_NAME := Some ''Dunlop'',
     COMPETITOR_PATTERN := Some ''B1'', COMPETITOR_PATTERN_SALES := Some 150,
     TOP_5_FITMENTS := Some ''Honda CR-V''\<rparr>"

definition row_de_a :: "rat sales_record" where
  "row_de_a = row_us_a\<lparr>COUNTRY_OR_TERRITORY := Some ''DE'', TIRE_SIZE := Some ''205/55R16'',
     TOTAL_INDUSTRY_SALES := Some 800, GOODYEAR_SALES := Some 100, SOM_OF_BRAND := Some (1 / 8)\<rparr>"

definition small_df :: dataframe where
  "small_df = [row_us_a, row_us_a2, row_us_b, row_de_a]"

section \<open>The script over the numbers of the library\<close>

subsection \<open>Numbers\<close>

text \<open>
  What a numeric cell of a pandas column can hold besides NaN: a finite number with its
  exact value (an int64, or a finite float other than negative zero), the negative zero of
  a float column, or one of the two infinities. \<open>read_csv\<close> reads the fields \<open>-0.0\<close>,
  \<open>inf\<close> and \<open>-inf\<close> as such.
\<close>

datatype number = Fin rat | NegZero | PosInf | NegInf

fun fin_val :: "number \<Rightarrow> rat" where
  "fin_val (Fin x) = x"
| "fin_val y = 0"

text \<open>The order of the numbers: by value, the two zeros being equal.\<close>

fun num_le :: "number \<Rightarrow> number \<Rightarrow> bool" where
  "num_le NegInf y = True"
| "num_le x PosInf = True"
| "num_le PosInf y = False"
| "num_le x NegInf = False"
| "num_le x y = (fin_val x \<le> fin_val y)"







text \<open>
  \<open>sort_values(by=col, ascending=False)\<close> on a column of numbers: plus infinity first, the
  finite numbers in descending order, minus infinity, and the missing values last. Rows
  with equal keys keep their order here; numpy's default sort promises no order among
  them, and no statement below depends on one.
\<close>

fun sort_rank :: "number option \<Rightarrow> nat \<times> rat" where
  "sort_rank (Some PosInf) = (0, 0)"
| "sort_rank (Some (Fin x)) = (1, - x)"
| "sort_rank (Some NegZero) = (1, 0)"
| "sort_rank (Some NegInf) = (2, 0)"
| "sort_rank None = (3, 0)"



subsection \<open>The arithmetic of pandas and numpy\<close>








subsection \<open>The three aggregations that compute\<close>






subsection \<open>Notions used to state the properties of the second reading\<close>

text \<open>
  The order of a column of numbers sorted in descending order with missing values last.
\<close>

definition num_desc_nan_last :: "number option \<Rightarrow> number option \<Rightarrow> bool" where
  "num_desc_nan_last a b =
     (case b of None \<Rightarrow> True | Some y \<Rightarrow> (case a of None \<Rightarrow> False | Some x \<Rightarrow> num_le y x))"

text \<open>
  The first occurrences of a list under a key, said without a scan: the head, then the
  first occurrences of what follows it with another key.
\<close>

function first_occurrences_on :: "('a \<Rightarrow> 'k) \<Rightarrow> 'a list \<Rightarrow> 'a list" where
  "first_occurrences_on key [] = []"
| "first_occurrences_on key (x # xs) =
     x # first_occurrences_on key (filter (\<lambda>y. key y \<noteq> key x) xs)"
  by pat_completeness auto
termination
  by (relation "measure (\<lambda>(key, xs). length xs)") (auto simp: less_Suc_eq_le)







subsection \<open>Two arithmetics to run the definitions with\<close>








subsection \<open>Rows with numbers\<close>


section \<open>Facts about the pandas operations\<close>

subsection \<open>Deduplication and missing values\<close>

lemma set_uniq_scan: "set (uniq_scan seen xs) = set xs - set seen"
  by (induction xs arbitrary: seen) auto

lemma distinct_uniq_scan: "distinct (uniq_scan seen xs)"
  by (induction xs arbitrary: seen) (auto simp: set_uniq_scan)

lemma uniq_scan_cong: "set seen = set seen' \<Longrightarrow> uniq_scan seen xs = uniq_scan seen' xs"
proof (induction xs arbitrary: seen seen')
  case Nil
  show ?case by simp
next
  case (Cons a xs)
  have mem: "a \<in> set seen \<longleftrightarrow> a \<in> set seen'"
    using Cons.prems by simp
  have "set (a # seen) = set (a # seen')"
    using Cons.prems by simp
  then have step: "uniq_scan (a # seen) xs = uniq_scan (a # seen') xs"
    by (rule Cons.IH)
  have same: "uniq_scan seen xs = uniq_scan seen' xs"
    using Cons.prems by (rule Cons.IH)
  show ?case
    by (simp only: uniq_scan.simps mem step same)
qed

lemma uniq_scan_Cons_seen:
  "uniq_scan (x # seen) xs = uniq_scan seen (filter (\<lambda>y. y \<noteq> x) xs)"
proof (induction xs arbitrary: seen)
  case Nil
  show ?case by simp
next
  case (Cons a xs)
  show ?case
  proof (cases "a = x")
    case True
    then show ?thesis using Cons.IH [of seen] by simp
  next
    case False
    have "set (a # x # seen) = set (x # a # seen)" by auto
    then have sw: "uniq_scan (a # x # seen) xs = uniq_scan (x # a # seen) xs"
      by (rule uniq_scan_cong)
    have "uniq_scan (a # x # seen) xs = uniq_scan (a # seen) (filter (\<lambda>y. y \<noteq> x) xs)"
      unfolding sw by (rule Cons.IH)
    then show ?thesis using False Cons.IH [of seen] by simp
  qed
qed

lemma length_uniq_scan: "length (uniq_scan seen xs) \<le> length xs"
  by (induction xs arbitrary: seen) (auto simp: le_SucI)

lemma drop_duplicates_Nil: "drop_duplicates [] = []"
  by (simp add: drop_duplicates_def)

lemma drop_duplicates_Cons:
  "drop_duplicates (x # xs) = x # drop_duplicates (filter (\<lambda>y. y \<noteq> x) xs)"
  by (simp add: drop_duplicates_def uniq_scan_Cons_seen)

lemma set_drop_duplicates: "set (drop_duplicates xs) = set xs"
  by (simp add: drop_duplicates_def set_uniq_scan)

lemma distinct_drop_duplicates: "distinct (drop_duplicates xs)"
  by (simp add: drop_duplicates_def distinct_uniq_scan)

lemma length_drop_duplicates: "length (drop_duplicates xs) \<le> length xs"
  by (simp add: drop_duplicates_def length_uniq_scan)

lemma drop_duplicates_snoc:
  "drop_duplicates (xs @ [x]) =
     (if x \<in> set xs then drop_duplicates xs else drop_duplicates xs @ [x])"
proof -
  have "uniq_scan seen (xs @ [x]) =
      (if x \<in> set xs \<union> set seen then uniq_scan seen xs else uniq_scan seen xs @ [x])" for seen
    by (induction xs arbitrary: seen) auto
  then show ?thesis by (simp add: drop_duplicates_def)
qed

lemma set_dropna: "set (dropna xs) = {x. Some x \<in> set xs}"
  by (induction xs rule: dropna.induct) auto

lemma dropna_map_Some: "dropna (map Some xs) = xs"
  by (induction xs) auto

lemma length_dropna: "length (dropna xs) \<le> length xs"
  by (induction xs rule: dropna.induct) auto

lemma dropna_filter: "dropna xs = map the (filter (\<lambda>c. c \<noteq> None) xs)"
  by (induction xs rule: dropna.induct) auto

subsection \<open>Sorting, truncation and grouping\<close>

lemma mset_sort_values_desc: "mset (sort_values_desc key xs) = mset xs"
  by (simp add: sort_values_desc_def)

lemma set_sort_values_desc: "set (sort_values_desc key xs) = set xs"
  using mset_sort_values_desc [of key xs] by (metis set_mset_mset)

lemma length_sort_values_desc: "length (sort_values_desc key xs) = length xs"
  using mset_sort_values_desc [of key xs] by (metis size_mset)

lemma distinct_sort_values_desc: "distinct (sort_values_desc key xs) = distinct xs"
  using mset_sort_values_desc [of key xs] by (metis distinct_count_atmost_1 set_mset_mset)

lemma sum_list_sort_values_desc:
  fixes f :: "'a \<Rightarrow> 'b::comm_monoid_add"
  shows "sum_list (map f (sort_values_desc key xs)) = sum_list (map f xs)"
proof -
  have "mset (map f (sort_values_desc key xs)) = mset (map f xs)"
    by (simp add: mset_sort_values_desc)
  then show ?thesis by (metis sum_mset_sum_list)
qed

lemma sorted_neg_desc:
  "sorted (map (\<lambda>x. - the (key x)) ys) \<Longrightarrow> \<forall>y \<in> set ys. key y \<noteq> None
     \<Longrightarrow> sorted_wrt (\<lambda>a b. desc_nan_last (key a) (key b)) ys"
proof (induction ys)
  case Nil
  show ?case by simp
next
  case (Cons y ys)
  then show ?case by (fastforce simp: desc_nan_last_def split: option.splits)
qed

lemma sorted_wrt_all_missing:
  "\<forall>y \<in> set ys. key y = None \<Longrightarrow> sorted_wrt (\<lambda>a b. desc_nan_last (key a) (key b)) ys"
  by (induction ys) (auto simp: desc_nan_last_def)

lemma sorted_sort_values_desc:
  "sorted_wrt (\<lambda>a b. desc_nan_last (key a) (key b)) (sort_values_desc key xs)"
proof -
  let ?num = "sort_key (\<lambda>x. - the (key x)) (filter (\<lambda>x. key x \<noteq> None) xs)"
  let ?nan = "filter (\<lambda>x. key x = None) xs"
  have "sorted (map (\<lambda>x. - the (key x)) ?num)"
    by (rule sorted_sort_key)
  moreover have "\<forall>y \<in> set ?num. key y \<noteq> None"
    by simp
  ultimately have a: "sorted_wrt (\<lambda>a b. desc_nan_last (key a) (key b)) ?num"
    by (rule sorted_neg_desc)
  have b: "sorted_wrt (\<lambda>a b. desc_nan_last (key a) (key b)) ?nan"
    by (rule sorted_wrt_all_missing) simp
  have c: "\<forall>x \<in> set ?num. \<forall>y \<in> set ?nan. desc_nan_last (key x) (key y)"
    by (simp add: desc_nan_last_def)
  show ?thesis
    unfolding sort_values_desc_def sorted_wrt_append using a b c by blast
qed


lemma head_dominates:
  assumes "sorted_wrt P xs" and "x \<in> set (head n xs)" and "y \<in> set xs" and "y \<notin> set (head n xs)"
  shows "P x y"
proof -
  have "xs = take n xs @ drop n xs" by simp
  then have "sorted_wrt P (take n xs @ drop n xs)" using assms(1) by simp
  then have "\<forall>a \<in> set (take n xs). \<forall>b \<in> set (drop n xs). P a b"
    unfolding sorted_wrt_append by blast
  moreover have "y \<in> set (drop n xs)"
    using assms(3,4) by (metis Un_iff append_take_drop_id head_def set_append)
  ultimately show ?thesis using assms(2) by (simp add: head_def)
qed

lemma head_all: "length xs \<le> n \<Longrightarrow> head n xs = xs"
  by (simp add: head_def)


lemma set_head_subset: "set (head n xs) \<subseteq> set xs"
  by (simp add: head_def set_take_subset)

lemma distinct_head: "distinct xs \<Longrightarrow> distinct (head n xs)"
  by (simp add: head_def)

lemma distinct_group_keys: "distinct (group_keys ps)"
  by (simp add: group_keys_def)

lemma sorted_group_keys: "sorted (group_keys ps)"
  by (simp add: group_keys_def)

lemma set_group_keys: "set (group_keys ps) = {k. \<exists>v. (Some k, v) \<in> set ps}"
  by (force simp: group_keys_def set_dropna)

subsection \<open>Comparing cells\<close>

lemma cell_eq_Some: "cell_eq a (Some y) \<longleftrightarrow> a = Some y"
  by (simp add: cell_eq_def split: option.splits)

lemma cell_eq_None: "cell_eq a None = False"
  by (simp add: cell_eq_def split: option.splits)

lemma cell_eq_iff: "cell_eq a b \<longleftrightarrow> a = b \<and> b \<noteq> None"
  by (auto simp: cell_eq_def split: option.splits)

subsection \<open>Groups of a deduplicated frame\<close>

lemma mset_dropna: "mset xs = mset ys \<Longrightarrow> mset (dropna xs) = mset (dropna ys)"
proof -
  assume "mset xs = mset ys"
  then have "mset (map the (filter (\<lambda>c. c \<noteq> None) xs)) = mset (map the (filter (\<lambda>c. c \<noteq> None) ys))"
    by (simp only: mset_map mset_filter)
  then show ?thesis by (simp only: dropna_filter)
qed

lemma distinct_same_set_dropna:
  assumes "distinct xs" and "distinct ys" and "set xs = set ys"
  shows "mset (dropna xs) = mset (dropna ys)"
  using assms by (intro mset_dropna) (simp add: set_eq_iff_mset_eq_distinct)

lemma sum_list_mset_cong:
  fixes xs :: "rat list"
  shows "mset xs = mset ys \<Longrightarrow> sum_list xs = sum_list ys"
  by (metis sum_mset_sum_list)

lemma length_mset_cong: "mset xs = mset ys \<Longrightarrow> length xs = length ys"
  by (metis size_mset)

lemma distinct_group_values:
  "distinct ps \<Longrightarrow> distinct (group_values k ps)"
  unfolding group_values_def
  by (rule distinct_map [THEN iffD2]) (auto simp: inj_on_def prod_eq_iff)

lemma set_group_values: "set (group_values k ps) = {v. (Some k, v) \<in> set ps}"
  by (force simp: group_values_def)

lemma group_keys_drop_duplicates: "group_keys (drop_duplicates ps) = group_keys ps"
proof -
  have "set (group_keys (drop_duplicates ps)) = set (group_keys ps)"
    by (simp add: set_group_keys set_drop_duplicates)
  then show ?thesis
    using sorted_group_keys distinct_group_keys
    by (metis sorted_distinct_set_unique)
qed

lemma group_keys_column:
  "group_keys (map (\<lambda>r. (f r, g r)) t) = sort (remdups (dropna (map f t)))"
  by (simp add: group_keys_def comp_def)

lemma mset_group_values_drop_duplicates:
  "mset (dropna (group_values b (drop_duplicates (map (\<lambda>r. (f r, g r)) t))))
     = mset (dropna (remdups (map g (filter (\<lambda>r. f r = Some b) t))))"
proof (rule distinct_same_set_dropna)
  show "distinct (group_values b (drop_duplicates (map (\<lambda>r. (f r, g r)) t)))"
    by (simp add: distinct_group_values distinct_drop_duplicates)
  show "distinct (remdups (map g (filter (\<lambda>r. f r = Some b) t)))"
    by simp
  show "set (group_values b (drop_duplicates (map (\<lambda>r. (f r, g r)) t)))
      = set (remdups (map g (filter (\<lambda>r. f r = Some b) t)))"
    by (force simp: set_group_values set_drop_duplicates)
qed

lemma nansum_group:
  "nansum (group_values b
      (drop_duplicates (map (\<lambda>r. (COMPETITOR_BRAND r, COMPETITOR_BRAND_SALES r)) t)))
   = spec_brand_sales_sum t b"
  unfolding nansum_def spec_brand_sales_sum_def
  by (rule sum_list_mset_cong) (rule mset_group_values_drop_duplicates)

lemma groupby_sum_pairs:
  "groupby_sum (drop_duplicates (map (\<lambda>r. (COMPETITOR_BRAND r, COMPETITOR_BRAND_SALES r)) t))
   = map (\<lambda>b. (b, spec_brand_sales_sum t b)) (sort (remdups (dropna (map COMPETITOR_BRAND t))))"
  by (simp add: groupby_sum_def group_keys_drop_duplicates group_keys_column nansum_group)

lemma set_brand_keys:
  "set (sort (remdups (dropna (map f t)))) = {b. \<exists>r \<in> set t. f r = Some b}"
  by (force simp: set_dropna)


lemma ranking_sorted:
  "sorted_wrt (\<lambda>p q. snd q \<le> snd p) (sort_values_desc (\<lambda>p. Some (snd p)) (xs :: ('a \<times> rat) list))"
  using sorted_sort_values_desc [of "\<lambda>p. Some (snd p)" xs]
  by (simp add: desc_nan_last_def)

lemma distinct_map_sort_values_desc:
  "distinct (map f (sort_values_desc key xs)) = distinct (map f xs)"
proof -
  have "mset (map f (sort_values_desc key xs)) = mset (map f xs)"
    by (simp add: mset_sort_values_desc)
  then show ?thesis by (metis distinct_count_atmost_1 set_mset_mset)
qed

lemma distinct_map_head: "distinct (map f xs) \<Longrightarrow> distinct (map f (head n xs))"
  by (simp add: head_def take_map [symmetric])

lemma distinct_fst_head_sorted:
  assumes "distinct keys"
  shows "distinct (map fst (head n (sort_values_desc key (map (\<lambda>b. (b, f b)) keys))))"
proof -
  have "map fst (map (\<lambda>b. (b, f b)) keys) = keys"
    by (simp add: comp_def)
  then have "distinct (map fst (map (\<lambda>b. (b, f b)) keys))"
    using assms by simp
  then have "distinct (map fst (sort_values_desc key (map (\<lambda>b. (b, f b)) keys)))"
    by (simp only: distinct_map_sort_values_desc)
  then show ?thesis by (rule distinct_map_head)
qed

lemma head_sorted_entries:
  assumes "p \<in> set (head n (sort_values_desc key (map (\<lambda>b. (b, f b)) keys)))"
  shows "fst p \<in> set keys \<and> snd p = f (fst p)"
proof -
  have "p \<in> set (sort_values_desc key (map (\<lambda>b. (b, f b)) keys))"
    using assms set_head_subset by fastforce
  then have "p \<in> set (map (\<lambda>b. (b, f b)) keys)"
    by (simp only: set_sort_values_desc)
  then show ?thesis by auto
qed

lemma head_length_full:
  assumes "y \<in> set xs" and "y \<notin> set (head n xs)"
  shows "length (head n xs) = n"
proof -
  have "\<not> length xs \<le> n"
  proof
    assume "length xs \<le> n"
    then have "head n xs = xs" by (rule head_all)
    with assms show False by simp
  qed
  then show ?thesis by (simp add: head_def)
qed

lemma head_sorted_top:
  fixes f :: "'a \<Rightarrow> rat"
  assumes "b \<in> set keys"
  shows "b \<in> fst ` set (head n (sort_values_desc (\<lambda>p. Some (snd p)) (map (\<lambda>b. (b, f b)) keys)))
    \<or> (length (head n (sort_values_desc (\<lambda>p. Some (snd p)) (map (\<lambda>b. (b, f b)) keys))) = n
        \<and> (\<forall>p \<in> set (head n (sort_values_desc (\<lambda>p. Some (snd p)) (map (\<lambda>b. (b, f b)) keys))).
              f b \<le> snd p))"
proof -
  let ?sorted = "sort_values_desc (\<lambda>p. Some (snd p)) (map (\<lambda>b. (b, f b)) keys)"
  have "(b, f b) \<in> set (map (\<lambda>b. (b, f b)) keys)"
    using assms by simp
  then have mem: "(b, f b) \<in> set ?sorted"
    by (simp only: set_sort_values_desc)
  have srt: "sorted_wrt (\<lambda>p q. snd q \<le> snd p) ?sorted"
    by (rule ranking_sorted)
  show ?thesis
  proof (cases "(b, f b) \<in> set (head n ?sorted)")
    case True
    then have "fst (b, f b) \<in> fst ` set (head n ?sorted)"
      by (rule imageI)
    then show ?thesis by simp
  next
    case False
    have l: "length (head n ?sorted) = n"
      using mem False by (rule head_length_full)
    have "\<forall>p \<in> set (head n ?sorted). f b \<le> snd p"
    proof
      fix p
      assume "p \<in> set (head n ?sorted)"
      from head_dominates [OF srt this mem False]
      show "f b \<le> snd p" by simp
    qed
    with l show ?thesis by simp
  qed
qed

subsection \<open>Formatting and the aggregates of a group\<close>

lemma digit_nth: "k < 10 \<Longrightarrow> is_digit (''0123456789'' ! k)"
  unfolding is_digit_def by (rule nth_mem) simp

lemma str_nat_digits: "list_all is_digit (str_nat n) \<and> str_nat n \<noteq> []"
proof (induction n rule: str_nat.induct)
  case (1 n)
  show ?case
  proof (cases "n < 10")
    case True
    then show ?thesis by (subst (1 2) str_nat.simps) (simp add: digit_nth)
  next
    case False
    then show ?thesis using 1 by (subst (1 2) str_nat.simps) (simp add: digit_nth)
  qed
qed

lemma length_decimals: "length (decimals d n) = d"
  by (induction d arbitrary: n) simp_all

lemma decimals_digits: "list_all is_digit (decimals d n)"
  by (induction d arbitrary: n) (simp_all add: digit_nth)

lemma format_fixed_missing: "format_fixed d None = ''nan''"
  by (simp add: format_fixed_def)

lemma format_fixed_shape:
  assumes "0 < d"
  shows "\<exists>ip ds. format_fixed d (Some x) = (if x < 0 then ''-'' else []) @ ip @ ''.'' @ ds
     \<and> ip \<noteq> [] \<and> list_all is_digit ip \<and> length ds = d \<and> list_all is_digit ds"
proof -
  let ?n = "round_half_even (\<bar>x\<bar> * 10 ^ d)"
  have "format_fixed d (Some x) = (if x < 0 then ''-'' else []) @ str_nat (?n div 10 ^ d)
      @ ''.'' @ decimals d (?n mod 10 ^ d)"
    using assms by (simp add: format_fixed_def Let_def)
  then show ?thesis
    using str_nat_digits length_decimals decimals_digits by blast
qed

lemma nanmax_set:
  "nanmax xs = (if dropna xs = [] then None else Some (Max (set (dropna xs))))"
proof (cases "dropna xs")
  case Nil
  then show ?thesis by (simp add: nanmax_def)
next
  case (Cons v vs)
  have "fold max vs v = Max (set (v # vs))"
    by (simp only: Max.set_eq_fold)
  then show ?thesis by (simp add: nanmax_def Cons)
qed

lemma nanmax_cong: "set (dropna xs) = set (dropna ys) \<Longrightarrow> nanmax xs = nanmax ys"
  unfolding nanmax_set by (metis set_empty)

lemma nanmean_mset_cong:
  assumes "mset xs = mset ys"
  shows "nanmean xs = nanmean ys"
proof -
  have m: "mset (dropna xs) = mset (dropna ys)"
    using assms by (rule mset_dropna)
  have "sum_list (dropna xs) = sum_list (dropna ys)"
    using m by (rule sum_list_mset_cong)
  moreover have "length (dropna xs) = length (dropna ys)"
    using m by (rule length_mset_cong)
  moreover have "dropna xs = [] \<longleftrightarrow> dropna ys = []"
    using m by (metis mset_zero_iff)
  ultimately show ?thesis by (simp add: nanmean_def Let_def)
qed

lemma mset_group_values_dd:
  "mset (group_values b (drop_duplicates (map (\<lambda>r. (f r, g r)) t)))
     = mset (remdups (map g (filter (\<lambda>r. f r = Some b) t)))"
proof -
  have d1: "distinct (group_values b (drop_duplicates (map (\<lambda>r. (f r, g r)) t)))"
    by (simp add: distinct_group_values distinct_drop_duplicates)
  have d2: "distinct (remdups (map g (filter (\<lambda>r. f r = Some b) t)))"
    by simp
  have s: "set (group_values b (drop_duplicates (map (\<lambda>r. (f r, g r)) t)))
      = set (remdups (map g (filter (\<lambda>r. f r = Some b) t)))"
    by (force simp: set_group_values set_drop_duplicates)
  from set_eq_iff_mset_eq_distinct [OF d1 d2] s show ?thesis
    by blast
qed

lemma nanmean_group:
  "nanmean (map snd (group_values b
      (drop_duplicates (map (\<lambda>r. (COMPETITOR_BRAND r, COMPETITOR_BRAND_SALES r, COMPETITOR_SOM r)) t))))
   = spec_brand_som_mean t b"
proof -
  let ?xs = "group_values b
      (drop_duplicates (map (\<lambda>r. (COMPETITOR_BRAND r, COMPETITOR_BRAND_SALES r, COMPETITOR_SOM r)) t))"
  let ?ys = "remdups (map (\<lambda>r. (COMPETITOR_BRAND_SALES r, COMPETITOR_SOM r))
         (filter (\<lambda>r. COMPETITOR_BRAND r = Some b) t))"
  have "mset ?xs = mset ?ys"
    by (rule mset_group_values_dd)
  then have "image_mset snd (mset ?xs) = image_mset snd (mset ?ys)"
    by (rule arg_cong)
  then have "mset (map snd ?xs) = mset (map snd ?ys)"
    by (simp only: mset_map)
  then have "nanmean (map snd ?xs) = nanmean (map snd ?ys)"
    by (rule nanmean_mset_cong)
  also have "nanmean (map snd ?ys) = spec_brand_som_mean t b"
    by (simp only: spec_brand_som_mean_def nanmean_def)
  finally show ?thesis .
qed

lemma nanmax_group:
  "nanmax (map fst (group_values b
      (drop_duplicates (map (\<lambda>r. (COMPETITOR_BRAND r, COMPETITOR_BRAND_SALES r, COMPETITOR_SOM r)) t))))
   = spec_brand_sales_max t b"
proof -
  let ?xs = "group_values b
      (drop_duplicates (map (\<lambda>r. (COMPETITOR_BRAND r, COMPETITOR_BRAND_SALES r, COMPETITOR_SOM r)) t))"
  let ?ys = "remdups (map (\<lambda>r. (COMPETITOR_BRAND_SALES r, COMPETITOR_SOM r))
         (filter (\<lambda>r. COMPETITOR_BRAND r = Some b) t))"
  let ?zs = "map COMPETITOR_BRAND_SALES (filter (\<lambda>r. COMPETITOR_BRAND r = Some b) t)"
  have "mset ?xs = mset ?ys"
    by (rule mset_group_values_dd)
  then have "set ?xs = set ?ys"
    by (rule mset_eq_setD)
  then have "set (map fst ?xs) = set (map fst ?ys)"
    by (simp only: set_map)
  also have "set (map fst ?ys) = set ?zs"
    by (simp add: image_image)
  finally have "set (dropna (map fst ?xs)) = set (dropna ?zs)"
    by (simp only: set_dropna)
  then have "nanmax (map fst ?xs) = nanmax ?zs"
    by (rule nanmax_cong)
  also have "nanmax ?zs = spec_brand_sales_max t b"
    by (simp add: spec_brand_sales_max_def nanmax_set Let_def)
  finally show ?thesis .
qed

lemma groupby_agg_triples:
  "groupby_agg_max_mean
     (drop_duplicates (map (\<lambda>r. (COMPETITOR_BRAND r, COMPETITOR_BRAND_SALES r, COMPETITOR_SOM r)) t))
   = map (\<lambda>b. (b, spec_brand_sales_max t b, spec_brand_som_mean t b))
       (sort (remdups (dropna (map COMPETITOR_BRAND t))))"
  by (simp add: groupby_agg_max_mean_def group_keys_drop_duplicates group_keys_column
      nanmax_group nanmean_group)

lemma head_sorted_top_missing_last:
  assumes "b \<in> set keys"
  shows "b \<in> fst ` set (head n (sort_values_desc key (map (\<lambda>b. (b, f b)) keys)))
    \<or> (length (head n (sort_values_desc key (map (\<lambda>b. (b, f b)) keys))) = n
        \<and> (\<forall>p \<in> set (head n (sort_values_desc key (map (\<lambda>b. (b, f b)) keys))).
              desc_nan_last (key p) (key (b, f b))))"
proof -
  let ?sorted = "sort_values_desc key (map (\<lambda>b. (b, f b)) keys)"
  have "(b, f b) \<in> set (map (\<lambda>b. (b, f b)) keys)"
    using assms by simp
  then have mem: "(b, f b) \<in> set ?sorted"
    by (simp only: set_sort_values_desc)
  have srt: "sorted_wrt (\<lambda>p q. desc_nan_last (key p) (key q)) ?sorted"
    by (rule sorted_sort_values_desc)
  show ?thesis
  proof (cases "(b, f b) \<in> set (head n ?sorted)")
    case True
    then have "fst (b, f b) \<in> fst ` set (head n ?sorted)"
      by (rule imageI)
    then show ?thesis by simp
  next
    case False
    have l: "length (head n ?sorted) = n"
      using mem False by (rule head_length_full)
    have "\<forall>p \<in> set (head n ?sorted). desc_nan_last (key p) (key (b, f b))"
    proof
      fix p
      assume "p \<in> set (head n ?sorted)"
      from head_dominates [OF srt this mem False]
      show "desc_nan_last (key p) (key (b, f b))" .
    qed
    with l show ?thesis by simp
  qed
qed

lemma percent_text_shape:
  "case m of
     None \<Rightarrow> format_fixed 4 (times100 m) @ ''%'' = ''nan%''
   | Some x \<Rightarrow> (\<exists>ip ds. format_fixed 4 (times100 m) @ ''%''
         = (if x < 0 then ''-'' else []) @ ip @ ''.'' @ ds @ ''%''
       \<and> ip \<noteq> [] \<and> list_all is_digit ip \<and> length ds = 4 \<and> list_all is_digit ds)"
proof (cases m)
  case None
  then show ?thesis by (simp add: times100_def format_fixed_missing)
next
  case (Some x)
  have "(0::nat) < 4" by simp
  from format_fixed_shape [OF this, of "x * 100"]
  obtain ip ds where "format_fixed 4 (Some (x * 100)) = (if x * 100 < 0 then ''-'' else []) @ ip @ ''.'' @ ds"
    and "ip \<noteq> []" and "list_all is_digit ip" and "length ds = 4" and "list_all is_digit ds"
    by blast
  moreover have "x * 100 < 0 \<longleftrightarrow> x < 0"
    by (simp add: mult_less_0_iff)
  ultimately show ?thesis
    using Some by (auto simp: times100_def)
qed

lemma top_groups:
  "map (\<lambda>(b, s, m). (b, s, format_fixed 4 (times100 m) @ ''%''))
     (groupby_agg_max_mean
        (drop_duplicates
           (map (\<lambda>r. (COMPETITOR_BRAND r, COMPETITOR_BRAND_SALES r, COMPETITOR_SOM r)) t)))
   = map (\<lambda>b. (b, spec_brand_sales_max t b,
                format_fixed 4 (times100 (spec_brand_som_mean t b)) @ ''%''))
       (sort (remdups (dropna (map COMPETITOR_BRAND t))))"
  by (simp add: groupby_agg_triples comp_def)

subsection \<open>The mean of fractions and its percentage\<close>

lemma mset_dropna_drop_duplicates:
  "mset (dropna (drop_duplicates xs)) = mset (remdups (dropna xs))"
proof -
  have d1: "distinct (dropna (drop_duplicates xs))"
    unfolding dropna_filter
    by (rule distinct_map [THEN iffD2])
      (auto simp: distinct_drop_duplicates inj_on_def)
  have d2: "distinct (remdups (dropna xs))" by simp
  have s: "set (dropna (drop_duplicates xs)) = set (remdups (dropna xs))"
    by (simp add: set_dropna set_drop_duplicates)
  from set_eq_iff_mset_eq_distinct [OF d1 d2] s show ?thesis by blast
qed

lemma nanmean_drop_duplicates:
  "nanmean (drop_duplicates xs) =
     (if remdups (dropna xs) = [] then None
      else Some (sum_list (remdups (dropna xs)) / of_nat (length (remdups (dropna xs)))))"
proof -
  have m: "mset (dropna (drop_duplicates xs)) = mset (remdups (dropna xs))"
    by (rule mset_dropna_drop_duplicates)
  have "sum_list (dropna (drop_duplicates xs)) = sum_list (remdups (dropna xs))"
    using m by (rule sum_list_mset_cong)
  moreover have "length (dropna (drop_duplicates xs)) = length (remdups (dropna xs))"
    using m by (rule length_mset_cong)
  moreover have "dropna (drop_duplicates xs) = [] \<longleftrightarrow> remdups (dropna xs) = []"
    using m by (metis mset_zero_iff)
  ultimately show ?thesis by (simp add: nanmean_def Let_def)
qed



lemma percent_unit_interval:
  fixes a :: rat
  shows "0 \<le> a \<and> a \<le> 1 \<Longrightarrow> 0 \<le> a * 100 \<and> a * 100 \<le> 100"
  by simp



subsection \<open>Counting brand names\<close>

lemma dropna_valid_brands:
  "dropna (map BRAND_NAME (df_valid_brands t)) = dropna (map BRAND_NAME t)"
  unfolding df_valid_brands_def
proof (induction t)
  case Nil
  show ?case by simp
next
  case (Cons r t)
  then show ?case by (cases "BRAND_NAME r") simp_all
qed

lemma count_list_dropna_map:
  "count_list (dropna (map f t)) b = length (filter (\<lambda>r. f r = Some b) t)"
proof (induction t)
  case Nil
  show ?case by simp
next
  case (Cons r t)
  then show ?case by (cases "f r") simp_all
qed

lemma length_dropna_map:
  "length (dropna (map f t)) = length (filter (\<lambda>r. f r \<noteq> None) t)"
proof (induction t)
  case Nil
  show ?case by simp
next
  case (Cons r t)
  then show ?case by (cases "f r") simp_all
qed

lemma sum_counts_unique:
  "sum_list (map (count_list xs) (unique xs)) = length xs"
proof -
  have "sum_list (map (count_list xs) (unique xs)) = sum (count_list xs) (set (unique xs))"
    by (rule sum_list_distinct_conv_sum_set) (simp add: unique_def distinct_drop_duplicates)
  also have "set (unique xs) = set xs"
    by (simp add: unique_def set_drop_duplicates)
  also have "sum (count_list xs) (set xs) = length xs"
    by (rule sum_count_set) simp_all
  finally show ?thesis .
qed

lemma sum_list_percentages:
  fixes f :: "'a \<Rightarrow> rat"
  shows "sum_list (map (\<lambda>p. f p / c * 100) xs) = sum_list (map f xs) / c * 100"
  by (induction xs) (simp_all add: add_divide_distrib distrib_right)

lemma of_nat_sum_list_snd:
  "sum_list (map (\<lambda>p. rat_of_nat (snd p)) xs) = rat_of_nat (sum_list (map snd xs))"
  by (induction xs) simp_all

lemma brand_counts_unfold:
  "brand_counts t =
     sort_values_desc (\<lambda>p. Some (of_nat (snd p)))
       (map (\<lambda>b. (b, length (filter (\<lambda>r. BRAND_NAME r = Some b) t)))
          (unique (dropna (map BRAND_NAME t))))"
  by (simp add: brand_counts_def value_counts_def Let_def dropna_valid_brands
      count_list_dropna_map)

lemma total_brands_length:
  "total_brands t = length (filter (\<lambda>r. BRAND_NAME r \<noteq> None) t)"
proof -
  have "total_brands t = sum_list (map snd
      (map (\<lambda>v. (v, count_list (dropna (map BRAND_NAME t)) v)) (unique (dropna (map BRAND_NAME t)))))"
    unfolding total_brands_def brand_counts_def value_counts_def Let_def dropna_valid_brands
    by (rule sum_list_sort_values_desc)
  also have "\<dots> = sum_list (map (count_list (dropna (map BRAND_NAME t))) (unique (dropna (map BRAND_NAME t))))"
    by (simp add: comp_def)
  also have "\<dots> = length (dropna (map BRAND_NAME t))"
    by (rule sum_counts_unique)
  finally show ?thesis by (simp only: length_dropna_map)
qed

subsection \<open>The frames of the small dataset and of an empty table\<close>


lemma decimals_4:
  "decimals 4 n = [''0123456789'' ! (n div 10 div 10 div 10 mod 10),
     ''0123456789'' ! (n div 10 div 10 mod 10), ''0123456789'' ! (n div 10 mod 10),
     ''0123456789'' ! (n mod 10)]"
proof -
  have "(4::nat) = Suc (Suc (Suc (Suc 0)))" by simp
  then show ?thesis by (simp only: decimals.simps append_Nil append_Cons)
qed

lemma dropna_append: "dropna (xs @ ys) = dropna xs @ dropna ys"
  by (induction xs rule: dropna.induct) auto

lemma small_df_options:
  "country_options small_df = [Some ''US'', Some ''DE'']
   \<and> tire_size_options small_df = [Some ''P225/65R17'', Some ''205/55R16'']"
  by (simp add: country_options_def tire_size_options_def unique_def drop_duplicates_def
      small_df_def row_us_a_def row_us_a2_def row_us_b_def row_de_a_def)

lemma small_df_no_match:
  "df_filtered small_df (Some ''US'') (Some ''205/55R16'') = []"
  by (simp add: df_filtered_def small_df_def cell_eq_Some row_us_a_def row_us_a2_def
      row_us_b_def row_de_a_def)

lemma empty_frames:
  "market_share [] = None"
  "df_competitor_sales [] = []"
  "df_top_competitors [] = []"
  "fitments [] = []"
  "sales_data [] = []"
  "brand_counts [] = []"
  "df_pattern_sales [] sel = []"
  by (simp_all add: market_share_def df_competitor_sales_def df_top_competitors_def fitments_def
      sales_data_def brand_counts_def df_pattern_sales_def df_competitor_pattern_def
      drop_duplicates_def unique_def nanmean_def groupby_sum_def groupby_agg_max_mean_def
      group_keys_def sort_values_desc_def head_def melt_def value_counts_def df_valid_brands_def)

lemma metric_missing: "market_share t = None \<Longrightarrow> market_share_metric t = ''nan%''"
  by (simp add: market_share_metric_def times100_def format_fixed_def)

lemma small_df_us:
  "df_filtered small_df (Some ''US'') (Some ''P225/65R17'') = [row_us_a, row_us_a2, row_us_b]"
  by (simp add: df_filtered_def small_df_def cell_eq_Some row_us_a_def row_us_a2_def
      row_us_b_def row_de_a_def)

lemma format_30: "format_fixed 4 (times100 (Some (3 / 10))) = ''30.0000''"
  by (simp add: format_fixed_def round_half_even_def times100_def decimals_4 str_nat.simps)

lemma format_15: "format_fixed 4 (times100 (Some (3 / 20))) = ''15.0000''"
  by (simp add: format_fixed_def round_half_even_def times100_def decimals_4 str_nat.simps)

lemma small_us_triples:
  "drop_duplicates (map (\<lambda>r. (COMPETITOR_BRAND r, COMPETITOR_BRAND_SALES r, COMPETITOR_SOM r))
      [row_us_a, row_us_a2, row_us_b])
   = [(Some ''A'', Some 300, Some (3 / 10)), (Some ''B'', Some 150, Some (3 / 20))]"
  by (simp add: drop_duplicates_def row_us_a_def row_us_a2_def row_us_b_def)

lemma small_us_groups:
  "groupby_agg_max_mean [(Some ''A'', Some 300, Some (3 / 10)), (Some ''B'', Some 150, Some (3 / 20))]
   = [(''A'', Some 300, Some (3 / 10)), (''B'', Some 150, Some (3 / 20))]"
  by (simp add: groupby_agg_max_mean_def group_keys_def group_values_def nanmax_def nanmean_def)

lemma small_df_top:
  "df_top_competitors [row_us_a, row_us_a2, row_us_b]
     = [(''A'', Some 300, ''30.0000%''), (''B'', Some 150, ''15.0000%'')]"
  unfolding df_top_competitors_def small_us_triples small_us_groups
  by (simp add: format_30 format_15 sort_values_desc_def head_def)

lemma small_brand_counts:
  "brand_counts small_df = [(''Goodyear'', 2), (''Dunlop'', 1)]"
proof -
  have "unique (dropna (map BRAND_NAME small_df)) = [''Goodyear'', ''Dunlop'']"
    by (simp add: unique_def drop_duplicates_def small_df_def row_us_a_def row_us_a2_def
        row_us_b_def row_de_a_def)
  moreover have "length (filter (\<lambda>r. BRAND_NAME r = Some ''Goodyear'') small_df) = 2"
    by (simp add: small_df_def row_us_a_def row_us_a2_def row_us_b_def row_de_a_def)
  moreover have "length (filter (\<lambda>r. BRAND_NAME r = Some ''Dunlop'') small_df) = 1"
    by (simp add: small_df_def row_us_a_def row_us_a2_def row_us_b_def row_de_a_def)
  ultimately show ?thesis
    by (simp add: brand_counts_unfold sort_values_desc_def)
qed

lemma small_pattern_sales:
  "df_pattern_sales [row_us_a, row_us_a2, row_us_b] (Some ''A'')
    = [(Some ''A1'', Some 180), (Some ''A2'', Some 120)]"
  by (simp add: df_pattern_sales_def df_competitor_pattern_def cell_eq_Some drop_duplicates_def
      row_us_a_def row_us_a2_def row_us_b_def)

subsection \<open>The competitor selector\<close>

lemma selectbox_returns_cases:
  "selectbox_returns opts v \<longleftrightarrow> (opts = [] \<and> v = None) \<or> (opts \<noteq> [] \<and> v \<in> set opts)"
  by (simp add: selectbox_returns_def)

lemma set_competitor_options:
  "set (competitor_options tbl) = Some ` fst ` set tbl"
  by (simp add: competitor_options_def unique_def set_drop_duplicates image_image)

lemma competitor_options_empty: "competitor_options tbl = [] \<longleftrightarrow> tbl = []"
proof -
  have "competitor_options tbl = [] \<longleftrightarrow> set (competitor_options tbl) = {}"
    by simp
  then show ?thesis by (simp add: set_competitor_options)
qed

lemma top_competitor_brands:
  "fst ` set (df_top_competitors t) \<subseteq> {b. \<exists>r \<in> set t. COMPETITOR_BRAND r = Some b}"
proof
  fix b
  assume "b \<in> fst ` set (df_top_competitors t)"
  then obtain row where "row \<in> set (df_top_competitors t)" and "b = fst row"
    by auto
  then have "row \<in> set (head 10 (sort_values_desc (\<lambda>row. fst (snd row))
       (map (\<lambda>b. (b, spec_brand_sales_max t b,
                   format_fixed 4 (times100 (spec_brand_som_mean t b)) @ ''%''))
          (sort (remdups (dropna (map COMPETITOR_BRAND t)))))))"
    by (simp only: df_top_competitors_def top_groups)
  then have "fst row \<in> set (sort (remdups (dropna (map COMPETITOR_BRAND t))))"
    using head_sorted_entries by fast
  then show "b \<in> {b. \<exists>r \<in> set t. COMPETITOR_BRAND r = Some b}"
    using \<open>b = fst row\<close> unfolding set_brand_keys by simp
qed

lemma set_df_pattern_sales:
  "set (df_pattern_sales t sel) =
     {(COMPETITOR_PATTERN r, COMPETITOR_PATTERN_SALES r) | r. r \<in> set t \<and> cell_eq (COMPETITOR_BRAND r) sel}"
  by (auto simp: df_pattern_sales_def df_competitor_pattern_def set_drop_duplicates)

section \<open>Facts about the operations on numbers\<close>

subsection \<open>The order of the numbers\<close>





lemma sort_rank_le: "sort_rank a \<le> sort_rank b \<longleftrightarrow> num_desc_nan_last a b"
proof (cases a)
  case None
  show ?thesis
  proof (cases b)
    case None
    then show ?thesis using \<open>a = None\<close> by (simp add: num_desc_nan_last_def)
  next
    case (Some y)
    then show ?thesis using \<open>a = None\<close>
      by (cases y) (simp_all add: num_desc_nan_last_def)
  qed
next
  case (Some x)
  show ?thesis
  proof (cases b)
    case None
    then show ?thesis using Some by (cases x) (simp_all add: num_desc_nan_last_def)
  next
    case (Some y)
    then show ?thesis using \<open>a = Some x\<close>
      by (cases x; cases y) (simp_all add: num_desc_nan_last_def)
  qed
qed

lemma num_desc_nan_last_trans:
  "num_desc_nan_last a b \<Longrightarrow> num_desc_nan_last b c \<Longrightarrow> num_desc_nan_last a c"
  unfolding sort_rank_le [symmetric] by (rule order_trans)

subsection \<open>Sorting rows by a column of numbers\<close>








subsection \<open>Deduplication under a key\<close>






lemma first_occurrences_on_Nil_iff: "first_occurrences_on key xs = [] \<longleftrightarrow> xs = []"
  by (cases xs) simp_all





subsection \<open>The groups of the ranking\<close>




subsection \<open>The groups of the top competitor table\<close>











subsection \<open>The market share over numbers\<close>









section \<open>The properties\<close>

subsection \<open>An empty filtered table\<close>

text \<open>
  C1, as the script behaves. When the filtered table is empty, the market share metric
  renders the text \<open>nan%\<close>: the mean of no values is a missing value, and Python formats
  it as \<open>nan\<close>. The competitor sales ranking, the top competitor table, the fitments list,
  the sales bars, the brand distribution and the pattern breakdown are empty, no callout
  is rendered, and no step raises an error.
\<close>

theorem empty_subset_frames:
  assumes "df_filtered df c s = []"
  shows "market_share_metric (df_filtered df c s) = ''nan%''
    \<and> df_competitor_sales (df_filtered df c s) = []
    \<and> df_top_competitors (df_filtered df c s) = []
    \<and> top_competitor (df_top_competitors (df_filtered df c s)) = Inr None
    \<and> fitments (df_filtered df c s) = []
    \<and> fitments_written (df_filtered df c s) = []
    \<and> sales_data (df_filtered df c s) = []
    \<and> brand_counts (df_filtered df c s) = []
    \<and> brand_percentage (df_filtered df c s) = []
    \<and> df_pattern_sales (df_filtered df c s) sel = []"
  unfolding assms
  by (simp add: empty_frames metric_missing top_competitor_def fitments_written_def
      brand_percentage_def)

theorem empty_subset_frames_witness:
  "df_filtered small_df (Some ''US'') (Some ''205/55R16'') = []
   \<and> market_share_metric (df_filtered small_df (Some ''US'') (Some ''205/55R16'')) = ''nan%''
   \<and> df_competitor_sales (df_filtered small_df (Some ''US'') (Some ''205/55R16'')) = []
   \<and> df_top_competitors (df_filtered small_df (Some ''US'') (Some ''205/55R16'')) = []
   \<and> fitments (df_filtered small_df (Some ''US'') (Some ''205/55R16'')) = []"
  using empty_subset_frames [OF small_df_no_match] small_df_no_match by blast

text \<open>
  The metric is not \<open>0.00%\<close> for an empty filtered table: in the small dataset the country
  US and the tire size 205/55R16 are both offered by the selectors, no row has both, and
  the metric reads \<open>nan%\<close>.
\<close>

theorem empty_subset_metric_counterexample:
  "Some ''US'' \<in> set (country_options small_df)
   \<and> Some ''205/55R16'' \<in> set (tire_size_options small_df)
   \<and> df_filtered small_df (Some ''US'') (Some ''205/55R16'') = []
   \<and> market_share_metric (df_filtered small_df (Some ''US'') (Some ''205/55R16'')) = ''nan%''
   \<and> market_share_metric (df_filtered small_df (Some ''US'') (Some ''205/55R16'')) \<noteq> ''0.00%''"
  by (simp add: small_df_options small_df_no_match empty_frames metric_missing)

subsection \<open>The competitor sales ranking\<close>




subsection \<open>The top competitor table\<close>




subsection \<open>The market share metric\<close>




subsection \<open>The brand distribution\<close>

text \<open>
  C5. For every filtered table, the brand distribution leaves out the rows whose brand name
  is missing, lists each remaining brand name once with the number of rows that carry it,
  by descending count, and turns each count into its percentage of the number of rows
  with a brand name. Whenever at least one row has a brand name, these percentages sum
  to 100. (The arithmetic here is exact, so the sum is exactly 100.)
\<close>

theorem brand_distribution_percentages:
  "distinct (map fst (brand_counts t))
   \<and> set (map fst (brand_counts t)) = {b. \<exists>r \<in> set t. BRAND_NAME r = Some b}
   \<and> (\<forall>p \<in> set (brand_counts t). snd p = length (filter (\<lambda>r. BRAND_NAME r = Some (fst p)) t))
   \<and> sorted_wrt (\<lambda>p q. snd q \<le> snd p) (brand_counts t)
   \<and> total_brands t = length (filter (\<lambda>r. BRAND_NAME r \<noteq> None) t)
   \<and> brand_percentage t
       = map (\<lambda>p. of_nat (snd p) / of_nat (length (filter (\<lambda>r. BRAND_NAME r \<noteq> None) t)) * 100)
           (brand_counts t)
   \<and> ((\<exists>r \<in> set t. BRAND_NAME r \<noteq> None) \<longrightarrow> sum_list (brand_percentage t) = 100)"
proof -
  let ?names = "unique (dropna (map BRAND_NAME t))"
  let ?groups = "map (\<lambda>b. (b, length (filter (\<lambda>r. BRAND_NAME r = Some b) t))) ?names"
  let ?key = "\<lambda>p :: string \<times> nat. Some (rat_of_nat (snd p))"
  have bc: "brand_counts t = sort_values_desc ?key ?groups"
    by (rule brand_counts_unfold)
  have "map fst ?groups = ?names"
    by (simp add: comp_def)
  then have dg: "distinct (map fst ?groups)"
    by (simp add: unique_def distinct_drop_duplicates)
  have dist: "distinct (map fst (brand_counts t))"
    unfolding bc using dg by (simp only: distinct_map_sort_values_desc)
  have "set (map fst (brand_counts t)) = fst ` set ?groups"
    unfolding bc by (simp only: set_map set_sort_values_desc)
  also have "\<dots> = set ?names"
    by (simp add: image_image)
  also have "\<dots> = {b. \<exists>r \<in> set t. BRAND_NAME r = Some b}"
    by (force simp: unique_def set_drop_duplicates set_dropna)
  finally have names: "set (map fst (brand_counts t)) = {b. \<exists>r \<in> set t. BRAND_NAME r = Some b}" .
  have counts: "\<forall>p \<in> set (brand_counts t). snd p = length (filter (\<lambda>r. BRAND_NAME r = Some (fst p)) t)"
    unfolding bc set_sort_values_desc by auto
  have "sorted_wrt (\<lambda>p q. desc_nan_last (?key p) (?key q)) (brand_counts t)"
    unfolding bc by (rule sorted_sort_values_desc)
  then have srt: "sorted_wrt (\<lambda>p q. snd q \<le> snd p) (brand_counts t)"
    by (simp add: desc_nan_last_def)
  have total: "total_brands t = length (filter (\<lambda>r. BRAND_NAME r \<noteq> None) t)"
    by (rule total_brands_length)
  have pct: "brand_percentage t
       = map (\<lambda>p. of_nat (snd p) / of_nat (length (filter (\<lambda>r. BRAND_NAME r \<noteq> None) t)) * 100)
           (brand_counts t)"
    by (simp only: brand_percentage_def total)
  have hundred: "(\<exists>r \<in> set t. BRAND_NAME r \<noteq> None) \<longrightarrow> sum_list (brand_percentage t) = 100"
  proof
    assume "\<exists>r \<in> set t. BRAND_NAME r \<noteq> None"
    then have "filter (\<lambda>r. BRAND_NAME r \<noteq> None) t \<noteq> []"
      by (simp add: filter_empty_conv)
    then have pos: "rat_of_nat (total_brands t) \<noteq> 0"
      unfolding total by simp
    have "sum_list (brand_percentage t)
        = sum_list (map (\<lambda>p. rat_of_nat (snd p)) (brand_counts t)) / rat_of_nat (total_brands t) * 100"
      unfolding brand_percentage_def by (rule sum_list_percentages)
    also have "sum_list (map (\<lambda>p. rat_of_nat (snd p)) (brand_counts t)) = rat_of_nat (total_brands t)"
      unfolding total_brands_def by (rule of_nat_sum_list_snd)
    finally show "sum_list (brand_percentage t) = 100"
      using pos by simp
  qed
  from dist names counts srt total pct hundred show ?thesis
    by (intro conjI)
qed

theorem brand_distribution_percentages_witness:
  "brand_counts small_df = [(''Goodyear'', 2), (''Dunlop'', 1)]
   \<and> total_brands small_df = 3
   \<and> brand_percentage small_df = [200 / 3, 100 / 3]
   \<and> sum_list (brand_percentage small_df) = 100"
proof -
  have "row_us_a \<in> set small_df" and "BRAND_NAME row_us_a \<noteq> None"
    by (simp_all add: small_df_def row_us_a_def)
  then have h: "\<exists>r \<in> set small_df. BRAND_NAME r \<noteq> None"
    by blast
  have n: "length (filter (\<lambda>r. BRAND_NAME r \<noteq> None) small_df) = 3"
    by (simp add: small_df_def row_us_a_def row_us_a2_def row_us_b_def row_de_a_def)
  from brand_distribution_percentages [of small_df] h
  have "total_brands small_df = length (filter (\<lambda>r. BRAND_NAME r \<noteq> None) small_df)"
    and "brand_percentage small_df
       = map (\<lambda>p. of_nat (snd p) / of_nat (length (filter (\<lambda>r. BRAND_NAME r \<noteq> None) small_df)) * 100)
           (brand_counts small_df)"
    and "sum_list (brand_percentage small_df) = 100"
    by blast+
  then show ?thesis
    unfolding n small_brand_counts by simp
qed

subsection \<open>The two-row scenario\<close>

text \<open>
  C6. Take a dataset of two rows that share the country US, the tire size P225/65R17, the
  total industry sales 1000 and the Goodyear sales 200, and have the competitor brands A
  with sales 300 and B with sales 150, whatever their other cells hold. With that country
  and size selected, the (total industry sales, Goodyear sales) pairs deduplicate to one
  row, the bar chart frame has exactly the two bars 1000 and 200, and the competitor
  ranking is A with 300, then B with 150.
\<close>

theorem two_row_scenario:
  assumes r1: "COUNTRY_OR_TERRITORY r1 = Some ''US''" "TIRE_SIZE r1 = Some ''P225/65R17''"
      "TOTAL_INDUSTRY_SALES r1 = Some 1000" "GOODYEAR_SALES r1 = Some 200"
      "COMPETITOR_BRAND r1 = Some ''A''" "COMPETITOR_BRAND_SALES r1 = Some 300"
    and r2: "COUNTRY_OR_TERRITORY r2 = Some ''US''" "TIRE_SIZE r2 = Some ''P225/65R17''"
      "TOTAL_INDUSTRY_SALES r2 = Some 1000" "GOODYEAR_SALES r2 = Some 200"
      "COMPETITOR_BRAND r2 = Some ''B''" "COMPETITOR_BRAND_SALES r2 = Some 150"
  shows "drop_duplicates (map (\<lambda>r. (TOTAL_INDUSTRY_SALES r, GOODYEAR_SALES r))
            (df_filtered [r1, r2] (Some ''US'') (Some ''P225/65R17''))) = [(Some 1000, Some 200)]
    \<and> sales_data (df_filtered [r1, r2] (Some ''US'') (Some ''P225/65R17''))
        = [(''TOTAL_INDUSTRY_SALES'', Some 1000), (''GOODYEAR_SALES'', Some 200)]
    \<and> df_competitor_sales (df_filtered [r1, r2] (Some ''US'') (Some ''P225/65R17''))
        = [(''A'', 300), (''B'', 150)]"
proof -
  have f: "df_filtered [r1, r2] (Some ''US'') (Some ''P225/65R17'') = [r1, r2]"
    by (simp add: df_filtered_def cell_eq_Some r1 r2)
  have d: "drop_duplicates (map (\<lambda>r. (TOTAL_INDUSTRY_SALES r, GOODYEAR_SALES r)) [r1, r2])
      = [(Some 1000, Some 200)]"
    by (simp add: drop_duplicates_def r1 r2)
  have s: "sales_data [r1, r2]
      = [(''TOTAL_INDUSTRY_SALES'', Some 1000), (''GOODYEAR_SALES'', Some 200)]"
    using d by (simp add: sales_data_def melt_def)
  have p: "drop_duplicates (map (\<lambda>r. (COMPETITOR_BRAND r, COMPETITOR_BRAND_SALES r)) [r1, r2])
      = [(Some ''A'', Some 300), (Some ''B'', Some 150)]"
    by (simp add: drop_duplicates_def r1 r2)
  have g: "groupby_sum [(Some ''A'', Some 300), (Some ''B'', Some 150)] = [(''A'', 300), (''B'', 150)]"
    by (simp add: groupby_sum_def group_keys_def group_values_def nansum_def)
  have c: "df_competitor_sales [r1, r2] = [(''A'', 300), (''B'', 150)]"
    using p by (simp add: df_competitor_sales_def g sort_values_desc_def head_def)
  show ?thesis
    unfolding f using d s c by simp
qed

theorem two_row_scenario_witness:
  "sales_data (df_filtered [row_us_a, row_us_b] (Some ''US'') (Some ''P225/65R17''))
        = [(''TOTAL_INDUSTRY_SALES'', Some 1000), (''GOODYEAR_SALES'', Some 200)]
    \<and> df_competitor_sales (df_filtered [row_us_a, row_us_b] (Some ''US'') (Some ''P225/65R17''))
        = [(''A'', 300), (''B'', 150)]"
proof -
  have "COUNTRY_OR_TERRITORY row_us_a = Some ''US''" "TIRE_SIZE row_us_a = Some ''P225/65R17''"
      "TOTAL_INDUSTRY_SALES row_us_a = Some 1000" "GOODYEAR_SALES row_us_a = Some 200"
      "COMPETITOR_BRAND row_us_a = Some ''A''" "COMPETITOR_BRAND_SALES row_us_a = Some 300"
      "COUNTRY_OR_TERRITORY row_us_b = Some ''US''" "TIRE_SIZE row_us_b = Some ''P225/65R17''"
      "TOTAL_INDUSTRY_SALES row_us_b = Some 1000" "GOODYEAR_SALES row_us_b = Some 200"
      "COMPETITOR_BRAND row_us_b = Some ''B''" "COMPETITOR_BRAND_SALES row_us_b = Some 150"
    by (simp_all add: row_us_a_def row_us_b_def)
  then show ?thesis
    using two_row_scenario [of row_us_a row_us_b] by blast
qed

subsection \<open>The filter stage\<close>

text \<open>
  C7. For every loaded table and every pair of selections (country, tire size), the
  filtered table consists of exactly the rows of the table, in their order, whose country
  cell and tire size cell are each equal to the selection, compared as exact, case-sensitive
  strings. A selection that is a missing value, or the \<open>None\<close> of a selector without
  options, matches no row.
\<close>

theorem df_filtered_exact_match:
  "df_filtered df (Some c) (Some s) =
     filter (\<lambda>r. COUNTRY_OR_TERRITORY r = Some c \<and> TIRE_SIZE r = Some s) df
   \<and> set (df_filtered df (Some c) (Some s)) =
       {r \<in> set df. COUNTRY_OR_TERRITORY r = Some c \<and> TIRE_SIZE r = Some s}
   \<and> df_filtered df None sel = []
   \<and> df_filtered df sel None = []"
  by (simp add: df_filtered_def cell_eq_Some cell_eq_None)

theorem df_filtered_exact_match_witness:
  "df_filtered small_df (Some ''US'') (Some ''P225/65R17'') = [row_us_a, row_us_a2, row_us_b]
   \<and> df_filtered small_df (Some ''us'') (Some ''P225/65R17'') = []
   \<and> df_filtered small_df (Some ''US'') (Some ''205/55R16'') = []"
  using df_filtered_exact_match [of small_df "''US''" "''P225/65R17''"]
    df_filtered_exact_match [of small_df "''us''" "''P225/65R17''"]
    df_filtered_exact_match [of small_df "''US''" "''205/55R16''"]
  by (simp add: small_df_def row_us_a_def row_us_a2_def row_us_b_def row_de_a_def)

subsection \<open>The fitments list\<close>

text \<open>
  C8. The fitments of a filtered table are the distinct values of the fitments column that
  are not missing, in the order of their first occurrence: a further row adds its fitment
  at the end when it has one that is not listed yet, and changes nothing otherwise. The
  first five of them, at most, are written, each unchanged after the check mark that starts
  its line. A missing fitments cell is skipped.
\<close>

theorem fitments_distinct_first_five:
  "fitments_written t = map (\<lambda>f. check_mark @ '' '' @ f) (take 5 (fitments t))
   \<and> length (fitments_written t) \<le> 5
   \<and> distinct (fitments t)
   \<and> set (fitments t) = {f. \<exists>r \<in> set t. TOP_5_FITMENTS r = Some f}
   \<and> fitments [] = []
   \<and> fitments (t @ [r]) =
       (case TOP_5_FITMENTS r of
          None \<Rightarrow> fitments t
        | Some f \<Rightarrow> if f \<in> set (fitments t) then fitments t else fitments t @ [f])"
proof -
  have a: "set (fitments t) = {f. \<exists>r \<in> set t. TOP_5_FITMENTS r = Some f}"
    by (force simp: fitments_def unique_def set_drop_duplicates set_dropna)
  have b: "fitments (t @ [r]) =
       (case TOP_5_FITMENTS r of
          None \<Rightarrow> fitments t
        | Some f \<Rightarrow> if f \<in> set (fitments t) then fitments t else fitments t @ [f])"
    by (simp add: fitments_def unique_def dropna_append drop_duplicates_snoc
        set_drop_duplicates split: option.splits)
  show ?thesis
    using a b by (simp add: fitments_written_def fitments_def unique_def
        distinct_drop_duplicates drop_duplicates_Nil)
qed

theorem fitments_distinct_first_five_witness:
  "fitments_written small_df
     = [check_mark @ '' Toyota RAV4'', check_mark @ '' Honda CR-V'']
   \<and> fitments ([row_us_a, row_us_a2, row_us_b] @ [row_de_a]) = [''Toyota RAV4'', ''Honda CR-V'']"
proof -
  have "fitments [row_us_a, row_us_a2, row_us_b] = [''Toyota RAV4'', ''Honda CR-V'']"
    by (simp add: fitments_def unique_def drop_duplicates_def
        row_us_a_def row_us_a2_def row_us_b_def)
  then show ?thesis
    using fitments_distinct_first_five [of "[row_us_a, row_us_a2, row_us_b] @ [row_de_a]" row_de_a]
      fitments_distinct_first_five [of "[row_us_a, row_us_a2, row_us_b]" row_de_a]
    by (simp add: small_df_def row_de_a_def row_us_a_def)
qed

subsection \<open>The competitor selector and the pattern breakdown\<close>

text \<open>
  C9. The competitor selector offers the brands of the current top competitor table and
  nothing else. So whatever the selector returns is either a brand of that table, which
  is then a competitor brand of some row of the filtered table, or, when the table is
  empty, no value at all. The pattern breakdown is the list of (pattern, pattern sales)
  pairs of the rows of the filtered table whose competitor brand is the selected one,
  deduplicated; every pair in it comes from such a row, and it is empty when nothing is
  selected.
\<close>

theorem selected_competitor_from_top_table:
  assumes "selectbox_returns (competitor_options (df_top_competitors t)) selected_competitor"
  shows "((df_top_competitors t = [] \<and> selected_competitor = None)
          \<or> (\<exists>b. selected_competitor = Some b
                \<and> b \<in> fst ` set (df_top_competitors t)
                \<and> (\<exists>r \<in> set t. COMPETITOR_BRAND r = Some b)))
    \<and> df_pattern_sales t selected_competitor
        = drop_duplicates (map (\<lambda>r. (COMPETITOR_PATTERN r, COMPETITOR_PATTERN_SALES r))
            (filter (\<lambda>r. selected_competitor \<noteq> None \<and> COMPETITOR_BRAND r = selected_competitor) t))
    \<and> (\<forall>p \<in> set (df_pattern_sales t selected_competitor).
          \<exists>r \<in> set t. COMPETITOR_BRAND r = selected_competitor \<and> selected_competitor \<noteq> None
            \<and> p = (COMPETITOR_PATTERN r, COMPETITOR_PATTERN_SALES r))
    \<and> (selected_competitor = None \<longrightarrow> df_pattern_sales t selected_competitor = [])"
proof -
  have sel: "(df_top_competitors t = [] \<and> selected_competitor = None)
          \<or> (\<exists>b. selected_competitor = Some b
                \<and> b \<in> fst ` set (df_top_competitors t)
                \<and> (\<exists>r \<in> set t. COMPETITOR_BRAND r = Some b))"
  proof (cases "df_top_competitors t = []")
    case True
    then have "competitor_options (df_top_competitors t) = []"
      using competitor_options_empty [of "df_top_competitors t"] by blast
    with assms have "selected_competitor = None"
      by (simp add: selectbox_returns_def)
    with True show ?thesis by simp
  next
    case False
    then have "competitor_options (df_top_competitors t) \<noteq> []"
      using competitor_options_empty [of "df_top_competitors t"] by blast
    with assms have "selected_competitor \<in> set (competitor_options (df_top_competitors t))"
      by (simp add: selectbox_returns_def)
    then obtain b where b: "selected_competitor = Some b" "b \<in> fst ` set (df_top_competitors t)"
      unfolding set_competitor_options by auto
    with top_competitor_brands [of t] have "\<exists>r \<in> set t. COMPETITOR_BRAND r = Some b"
      by auto
    with b show ?thesis by simp
  qed
  have flt: "filter (\<lambda>r. cell_eq (COMPETITOR_BRAND r) selected_competitor) t
      = filter (\<lambda>r. selected_competitor \<noteq> None \<and> COMPETITOR_BRAND r = selected_competitor) t"
    by (rule filter_cong) (auto simp: cell_eq_iff)
  have eq: "df_pattern_sales t selected_competitor
        = drop_duplicates (map (\<lambda>r. (COMPETITOR_PATTERN r, COMPETITOR_PATTERN_SALES r))
            (filter (\<lambda>r. selected_competitor \<noteq> None \<and> COMPETITOR_BRAND r = selected_competitor) t))"
    by (simp only: df_pattern_sales_def df_competitor_pattern_def flt)
  have rows: "\<forall>p \<in> set (df_pattern_sales t selected_competitor).
          \<exists>r \<in> set t. COMPETITOR_BRAND r = selected_competitor \<and> selected_competitor \<noteq> None
            \<and> p = (COMPETITOR_PATTERN r, COMPETITOR_PATTERN_SALES r)"
    unfolding set_df_pattern_sales by (auto simp: cell_eq_iff)
  have none: "selected_competitor = None \<longrightarrow> df_pattern_sales t selected_competitor = []"
    unfolding eq by (simp add: drop_duplicates_Nil)
  from sel eq rows none show ?thesis by (intro conjI)
qed


theorem selected_competitor_from_top_table_witness:
  "selectbox_returns (competitor_options (df_top_competitors [row_us_a, row_us_a2, row_us_b])) (Some ''A'')
   \<and> \<not> selectbox_returns (competitor_options (df_top_competitors [row_us_a, row_us_a2, row_us_b])) (Some ''C'')
   \<and> ''A'' \<in> fst ` set (df_top_competitors [row_us_a, row_us_a2, row_us_b])
   \<and> df_pattern_sales [row_us_a, row_us_a2, row_us_b] (Some ''A'')
       = [(Some ''A1'', Some 180), (Some ''A2'', Some 120)]"
proof -
  have opts: "competitor_options (df_top_competitors [row_us_a, row_us_a2, row_us_b])
      = [Some ''A'', Some ''B'']"
    by (simp add: small_df_top competitor_options_def unique_def drop_duplicates_def)
  have h: "selectbox_returns (competitor_options (df_top_competitors [row_us_a, row_us_a2, row_us_b])) (Some ''A'')"
    unfolding opts by (simp add: selectbox_returns_def)
  have n: "\<not> selectbox_returns (competitor_options (df_top_competitors [row_us_a, row_us_a2, row_us_b])) (Some ''C'')"
    unfolding opts by (simp add: selectbox_returns_def)
  from selected_competitor_from_top_table [OF h]
  have "''A'' \<in> fst ` set (df_top_competitors [row_us_a, row_us_a2, row_us_b])"
    by auto
  with h n small_pattern_sales show ?thesis by simp
qed

subsection \<open>The top competitor callouts\<close>

text \<open>
  C10. The two callout values, the brand and the formatted share of the first row of the
  top competitor table, are rendered exactly when the table is not empty. For an empty
  table nothing is rendered, and reading the first row never raises IndexError.
\<close>

theorem top_competitor_callouts:
  "top_competitor tbl = Inr (case tbl of [] \<Rightarrow> None | row # rest \<Rightarrow> Some (fst row, snd (snd row)))
   \<and> (top_competitor tbl = Inr None \<longleftrightarrow> tbl = [])
   \<and> top_competitor tbl \<noteq> Inl IndexError"
  by (cases tbl) (simp_all add: top_competitor_def iloc0_def)

theorem top_competitor_callouts_witness:
  "top_competitor (df_top_competitors (df_filtered small_df (Some ''US'') (Some ''P225/65R17'')))
     = Inr (Some (''A'', ''30.0000%''))
   \<and> top_competitor (df_top_competitors (df_filtered small_df (Some ''US'') (Some ''205/55R16'')))
     = Inr None"
  using top_competitor_callouts
      [of "df_top_competitors (df_filtered small_df (Some ''US'') (Some ''P225/65R17''))"]
    top_competitor_callouts
      [of "df_top_competitors (df_filtered small_df (Some ''US'') (Some ''205/55R16''))"]
  by (simp add: small_df_us small_df_top small_df_no_match empty_frames)

end
